theory Spec2Isabelle
  imports Main
begin

section \<open>Error values\<close>

text \<open>
  A Go value of interface type \<^verbatim>\<open>error\<close> is either the nil interface, a value of the
  package's own slice type \<^verbatim>\<open>multi []error\<close>, or a value of some other type. A value of
  another type is kept opaque: it has an identity (errors made by \<^verbatim>\<open>errors.New\<close> are
  pointers, compared by address) and the message its \<^verbatim>\<open>Error()\<close> method returns.
  The elements of a \<^verbatim>\<open>multi\<close> are again of type \<^verbatim>\<open>error\<close>, so the type is recursive and an
  element may be nil or another \<^verbatim>\<open>multi\<close>.
\<close>

datatype error =
    ErrNil
  | Singular (ident: nat) (message: string)
  | Multi "error list"

fun is_multi :: "error \<Rightarrow> bool" where
  "is_multi (Multi m) = True"
| "is_multi e = False"

fun is_singular :: "error \<Rightarrow> bool" where
  "is_singular (Singular i s) = True"
| "is_singular e = False"

section \<open>Append\<close>

text \<open>
  \<^verbatim>\<open>
  func Append(dest error, err error) error {
      if err == nil {
          return dest
      } else if dest == nil {
          return err
      } else if md, ok := dest.(multi); ok {
          if ms, ok := err.(multi); ok {
              return append(md, ms...)
          } else {
              return append(md, err)
          }
      } else {
          if ms, ok := err.(multi); ok {
              return append(multi{dest}, ms...)
          } else {
              return multi{dest, err}
          }
      }
  }
  \<close>
  The equations are tried in order, as the branches are. The value returned by Go's
  \<^verbatim>\<open>append\<close> is the concatenation, whether or not the backing array was reused.
\<close>

fun Append :: "error \<Rightarrow> error \<Rightarrow> error" where
  "Append dest ErrNil = dest"
| "Append ErrNil err = err"
| "Append (Multi md) (Multi ms) = Multi (md @ ms)"
| "Append (Multi md) err = Multi (md @ [err])"
| "Append dest (Multi ms) = Multi ([dest] @ ms)"
| "Append dest err = Multi [dest, err]"

section \<open>Traversal: ForEach, Len, All\<close>

text \<open>
  \<^verbatim>\<open>
  func ForEach(err error, f func(err error)) {
      if err == nil {
          // nop
      } else if m, ok := err.(multi); ok {
          for _, err := range m {
              f(err)
          }
      } else {
          f(err)
      }
  }
  \<close>
  The callback returns nothing and works by side effect, so it is a state transformer
  \<open>error \<Rightarrow> 's \<Rightarrow> 's\<close> and \<open>ForEach\<close> returns the state after the last call.
\<close>

fun range_loop :: "(error \<Rightarrow> 's \<Rightarrow> 's) \<Rightarrow> error list \<Rightarrow> 's \<Rightarrow> 's" where
  "range_loop f [] s = s"
| "range_loop f (err # m) s = range_loop f m (f err s)"

fun ForEach :: "error \<Rightarrow> (error \<Rightarrow> 's \<Rightarrow> 's) \<Rightarrow> 's \<Rightarrow> 's" where
  "ForEach ErrNil f s = s"
| "ForEach (Multi m) f s = range_loop f m s"
| "ForEach err f s = f err s"

text \<open>
  \<^verbatim>\<open>
  func Len(err error) int {
      if err == nil {
          return 0
      } else if m, ok := err.(multi); ok {
          return len(m)
      } else {
          return 1
      }
  }
  \<close>
  The result is a slice length or 0 or 1, so it is a natural number.
\<close>

fun Len :: "error \<Rightarrow> nat" where
  "Len ErrNil = 0"
| "Len (Multi m) = length m"
| "Len err = 1"

text \<open>
  \<^verbatim>\<open>
  func All(err error) []error {
      var errs []error
      ForEach(err, func(err error) {
          errs = append(errs, err)
      })
      return errs
  }
  \<close>
  The captured variable \<^verbatim>\<open>errs\<close> is the state of the callback; the nil slice it starts
  from is the empty list.
\<close>

definition All_errs :: "error \<Rightarrow> error list" where
  "All_errs err = ForEach err (\<lambda>err errs. errs @ [err]) []"

text \<open>
  To count and record the calls of an arbitrary callback \<open>f\<close>, it is run next to a log
  of its arguments.
\<close>

definition logged :: "(error \<Rightarrow> 's \<Rightarrow> 's) \<Rightarrow> error \<Rightarrow> error list \<times> 's \<Rightarrow> error list \<times> 's" where
  "logged f err = (\<lambda>(log, s). (log @ [err], f err s))"

section \<open>Matching: multi.Is and multi.As\<close>









section \<open>Messages\<close>

text \<open>
  \<^verbatim>\<open>fmt.Fprintf(&buf, "%d", n)\<close> on a non-negative \<^verbatim>\<open>int\<close> writes its decimal digits.
  The numbers printed are a slice length and an index plus one.
\<close>

definition digit :: "nat \<Rightarrow> char" where
  "digit d = ''0123456789'' ! d"

function itoa :: "nat \<Rightarrow> string" where
  "itoa n = (if n < 10 then [digit n] else itoa (n div 10) @ [digit (n mod 10)])"
  by pat_completeness auto
termination
  by (relation "measure (\<lambda>n. n)") auto

declare itoa.simps [simp del]

text \<open>
  \<^verbatim>\<open>strings.ReplaceAll(s, old, new)\<close> for an \<^verbatim>\<open>old\<close> of one byte, which is how the source
  calls it: every occurrence of the byte is replaced by \<^verbatim>\<open>new\<close>.
\<close>

fun ReplaceAll :: "string \<Rightarrow> char \<Rightarrow> string \<Rightarrow> string" where
  "ReplaceAll [] old new = []"
| "ReplaceAll (c # s) old new = (if c = old then new else [c]) @ ReplaceAll s old new"

abbreviation newline :: char where
  "newline \<equiv> CHR 0x0A"

abbreviation tab :: char where
  "tab \<equiv> CHR 0x09"

text \<open>
  A panic is a value: the explicit one of \<^verbatim>\<open>multi.Error\<close>, and the nil dereference of a
  method call on a nil interface value.
\<close>

datatype panic = ZeroErrors | NilDereference

text \<open>
  \<^verbatim>\<open>
  func (m multi) Error() string {
      switch len(m) {
      case 0:
          panic("multierr.multi does not support zero errors")
      case 1:
          return m[0].Error()
      default:
          return FormatMessage([]error(m))
      }
  }

  var FormatMessage func(errs []error) string = DefaultFormatMessage

  func DefaultFormatMessage(errs []error) string {
      var buf strings.Builder
      fmt.Fprintf(&buf, "%d errors occurred:\n", len(errs))
      for i, err := range errs {
          if i > 0 {
              buf.WriteByte('\n')
          }
          s := err.Error()
          fmt.Fprintf(&buf, "(%d) %s", i+1, strings.ReplaceAll(s, "\n", "\n\t"))
      }
      return buf.String()
  }
  \<close>
  \<open>Error hook e\<close> is the method call \<^verbatim>\<open>e.Error()\<close> on an interface value. The package
  variable \<^verbatim>\<open>FormatMessage\<close> is the parameter \<open>hook\<close>: \<open>None\<close> while it holds its
  initial value \<^verbatim>\<open>DefaultFormatMessage\<close>, \<open>Some f\<close> once a program has assigned \<open>f\<close>.
  The three cases of \<^verbatim>\<open>switch len(m)\<close> are the list patterns \<open>[]\<close>, \<open>[e]\<close> and longer.
\<close>

type_synonym formatter = "error list \<Rightarrow> panic + string"

fun Error :: "formatter option \<Rightarrow> error \<Rightarrow> panic + string"
  and multi_Error :: "formatter option \<Rightarrow> error list \<Rightarrow> panic + string"
  and DefaultFormatMessage :: "formatter option \<Rightarrow> error list \<Rightarrow> panic + string"
  and format_loop :: "formatter option \<Rightarrow> nat \<Rightarrow> error list \<Rightarrow> string \<Rightarrow> panic + string"
where
  "Error hook ErrNil = Inl NilDereference"
| "Error hook (Singular i s) = Inr s"
| "Error hook (Multi m) = multi_Error hook m"
| "multi_Error hook [] = Inl ZeroErrors"
| "multi_Error hook [e] = Error hook e"
| "multi_Error hook (e # e' # m) =
     (case hook of
        None \<Rightarrow> DefaultFormatMessage hook (e # e' # m)
      | Some f \<Rightarrow> f (e # e' # m))"
| "DefaultFormatMessage hook errs =
     format_loop hook 0 errs (itoa (length errs) @ '' errors occurred:'' @ [newline])"
| "format_loop hook i [] buf = Inr buf"
| "format_loop hook i (err # errs) buf =
     (let buf' = (if i > 0 then buf @ [newline] else buf) in
      case Error hook err of
        Inl p \<Rightarrow> Inl p
      | Inr s \<Rightarrow>
          format_loop hook (i + 1) errs
            (buf' @ ''('' @ itoa (i + 1) @ '') '' @ ReplaceAll s newline [newline, tab]))"

section \<open>Notions the claims are stated with\<close>

text \<open>
  The invariant of a composite: at least two elements, none of them a composite itself.
  Values that are not composites satisfy it.
\<close>

definition well_formed :: "error \<Rightarrow> bool" where
  "well_formed e =
     (case e of
        Multi m \<Rightarrow> 2 \<le> length m \<and> list_all (\<lambda>x. \<not> is_multi x) m
      | _ \<Rightarrow> True)"

text \<open>
  The default message as the specification words it: the header line
  \<^verbatim>\<open><N> errors occurred:\<close>, then one line \<^verbatim>\<open>(<i>) <message>\<close> per element with \<open>i\<close>
  counting from 1, every newline inside a message replaced by newline and tab, and the
  lines joined by single newlines with none after the last.
\<close>

fun join_lines :: "string list \<Rightarrow> string" where
  "join_lines [] = []"
| "join_lines [l] = l"
| "join_lines (l # ls) = l @ [newline] @ join_lines ls"

definition element_line :: "nat \<Rightarrow> string \<Rightarrow> string" where
  "element_line i msg = ''('' @ itoa i @ '') '' @ ReplaceAll msg newline [newline, tab]"

definition spec_message :: "string list \<Rightarrow> string" where
  "spec_message msgs =
     join_lines ((itoa (length msgs) @ '' errors occurred:'')
                 # map (\<lambda>(i, msg). element_line (Suc i) msg) (enumerate 0 msgs))"

section \<open>Facts about the traversals\<close>

lemma range_loop_fold: "range_loop f m s = fold f m s"
  by (induction m arbitrary: s) simp_all

lemma range_loop_snoc: "range_loop (\<lambda>err errs. errs @ [err]) m acc = acc @ m"
  by (induction m arbitrary: acc) simp_all

lemma All_errs_ErrNil: "All_errs ErrNil = []"
  by (simp add: All_errs_def)

lemma All_errs_Multi: "All_errs (Multi m) = m"
  by (simp add: All_errs_def range_loop_snoc)

lemma All_errs_Singular: "All_errs (Singular i s) = [Singular i s]"
  by (simp add: All_errs_def)

lemma not_nil_not_multi: "a \<noteq> ErrNil \<Longrightarrow> \<not> is_multi a \<Longrightarrow> \<exists>i s. a = Singular i s"
  by (cases a) simp_all

section \<open>Append: case analysis, identity laws, invariant\<close>

text \<open>
  C1. \<open>Append a b\<close> follows five rules in order: if \<open>b\<close> is nil it returns \<open>a\<close>;
  else if \<open>a\<close> is nil it returns \<open>b\<close>; else if \<open>a\<close> is a composite it returns \<open>a\<close>'s
  elements followed by \<open>b\<close>'s elements when \<open>b\<close> is a composite and by \<open>b\<close> itself
  otherwise; else if \<open>b\<close> is a composite it returns the composite of \<open>a\<close> followed by
  \<open>b\<close>'s elements; else it returns the composite \<open>[a, b]\<close>. For two present errors
  that are not composites, \<open>All\<close> of the result is \<open>[a, b]\<close> and \<open>Len\<close> of it is 2.
\<close>

theorem Append_rules:
  "(b = ErrNil \<longrightarrow> Append a b = a) \<and>
   (b \<noteq> ErrNil \<and> a = ErrNil \<longrightarrow> Append a b = b) \<and>
   (b \<noteq> ErrNil \<and> a = Multi md \<longrightarrow>
      Append a b = Multi (md @ (case b of Multi ms \<Rightarrow> ms | _ \<Rightarrow> [b]))) \<and>
   (a \<noteq> ErrNil \<and> \<not> is_multi a \<and> b = Multi ms \<longrightarrow> Append a b = Multi (a # ms)) \<and>
   (a \<noteq> ErrNil \<and> \<not> is_multi a \<and> b \<noteq> ErrNil \<and> \<not> is_multi b \<longrightarrow>
      Append a b = Multi [a, b] \<and> All_errs (Append a b) = [a, b] \<and> Len (Append a b) = 2)"
proof (intro conjI impI)
  assume "b = ErrNil"
  then show "Append a b = a" by (cases a) simp_all
next
  assume "b \<noteq> ErrNil \<and> a = ErrNil"
  then show "Append a b = b" by (cases b) simp_all
next
  assume "b \<noteq> ErrNil \<and> a = Multi md"
  then show "Append a b = Multi (md @ (case b of Multi ms \<Rightarrow> ms | _ \<Rightarrow> [b]))"
    by (cases b) simp_all
next
  assume "a \<noteq> ErrNil \<and> \<not> is_multi a \<and> b = Multi ms"
  then show "Append a b = Multi (a # ms)" by (cases a) simp_all
next
  assume h: "a \<noteq> ErrNil \<and> \<not> is_multi a \<and> b \<noteq> ErrNil \<and> \<not> is_multi b"
  then obtain i s j t where ab: "a = Singular i s" "b = Singular j t"
    using not_nil_not_multi by blast
  then show "Append a b = Multi [a, b]" by simp
  from ab show "All_errs (Append a b) = [a, b]" by (simp add: All_errs_Multi)
  from ab show "Len (Append a b) = 2" by simp
qed

theorem Append_rules_witness:
  "Append (Singular 1 ''x'') ErrNil = Singular 1 ''x'' \<and>
   Append ErrNil (Singular 2 ''y'') = Singular 2 ''y'' \<and>
   Append (Multi [Singular 1 ''x'', Singular 2 ''y'']) (Multi [Singular 3 ''z'', Singular 4 ''w''])
     = Multi [Singular 1 ''x'', Singular 2 ''y'', Singular 3 ''z'', Singular 4 ''w''] \<and>
   Append (Multi [Singular 1 ''x'', Singular 2 ''y'']) (Singular 3 ''z'')
     = Multi [Singular 1 ''x'', Singular 2 ''y'', Singular 3 ''z''] \<and>
   Append (Singular 1 ''x'') (Multi [Singular 2 ''y'', Singular 3 ''z''])
     = Multi [Singular 1 ''x'', Singular 2 ''y'', Singular 3 ''z''] \<and>
   Append (Singular 1 ''x'') (Singular 2 ''y'') = Multi [Singular 1 ''x'', Singular 2 ''y''] \<and>
   All_errs (Append (Singular 1 ''x'') (Singular 2 ''y'')) = [Singular 1 ''x'', Singular 2 ''y''] \<and>
   Len (Append (Singular 1 ''x'') (Singular 2 ''y'')) = 2"
  using Append_rules [where a = "Singular 1 ''x''" and b = ErrNil]
    Append_rules [where a = ErrNil and b = "Singular 2 ''y''"]
    Append_rules [where a = "Multi [Singular 1 ''x'', Singular 2 ''y'']"
      and b = "Multi [Singular 3 ''z'', Singular 4 ''w'']"
      and md = "[Singular 1 ''x'', Singular 2 ''y'']"]
    Append_rules [where a = "Multi [Singular 1 ''x'', Singular 2 ''y'']"
      and b = "Singular 3 ''z''" and md = "[Singular 1 ''x'', Singular 2 ''y'']"]
    Append_rules [where a = "Singular 1 ''x''"
      and b = "Multi [Singular 2 ''y'', Singular 3 ''z'']"
      and ms = "[Singular 2 ''y'', Singular 3 ''z'']"]
    Append_rules [where a = "Singular 1 ''x''" and b = "Singular 2 ''y''"]
  by simp

text \<open>
  C2. Identity laws: \<open>Append\<close> of nil and nil is nil, and for every error value \<open>x\<close>,
  nil included, \<open>Append\<close> of nil and \<open>x\<close> and \<open>Append\<close> of \<open>x\<close> and nil are \<open>x\<close> itself,
  the same value and not a composite around it.
\<close>

theorem Append_identity:
  "Append ErrNil ErrNil = ErrNil \<and> Append ErrNil x = x \<and> Append x ErrNil = x"
  by (cases x) simp_all

text \<open>
  C3. The invariant is preserved: when each operand that is a composite has at least two
  elements and no composite among them, the value \<open>Append\<close> returns is nil, or one of
  the operands that is not a composite, or a composite of at least two elements with no
  composite among them.
\<close>

theorem Append_invariant:
  assumes "well_formed a" and "well_formed b"
  shows "Append a b = ErrNil
     \<or> (is_singular (Append a b) \<and> (Append a b = a \<or> Append a b = b))
     \<or> (\<exists>m. Append a b = Multi m \<and> 2 \<le> length m \<and> list_all (\<lambda>x. \<not> is_multi x) m)"
  using assms
  by (cases a; cases b) (auto simp: well_formed_def)

theorem Append_invariant_witness:
  "well_formed (Multi [Singular 1 ''x'', Singular 2 ''y'']) \<and> well_formed (Singular 3 ''z'') \<and>
   (\<exists>m. Append (Multi [Singular 1 ''x'', Singular 2 ''y'']) (Singular 3 ''z'') = Multi m
      \<and> 2 \<le> length m \<and> list_all (\<lambda>x. \<not> is_multi x) m)"
proof -
  have a: "well_formed (Multi [Singular 1 ''x'', Singular 2 ''y''])"
    by (simp add: well_formed_def)
  have b: "well_formed (Singular 3 ''z'')"
    by (simp add: well_formed_def)
  show ?thesis
    using a b Append_invariant [OF a b] by simp
qed


section \<open>Accumulation\<close>

lemma foldl_Append_Multi:
  "list_all is_singular es \<Longrightarrow> foldl Append (Multi m) es = Multi (m @ es)"
proof (induction es arbitrary: m)
  case Nil
  then show ?case by simp
next
  case (Cons e es)
  then obtain i s where e: "e = Singular i s" by (cases e) simp_all
  from Cons.prems have "list_all is_singular es" by simp
  from Cons.IH [OF this, of "m @ [e]"] e show ?case by simp
qed

lemma foldl_Append_ErrNil:
  assumes "list_all is_singular es"
  shows "foldl Append ErrNil es = (case es of [] \<Rightarrow> ErrNil | [e] \<Rightarrow> e | _ \<Rightarrow> Multi es)"
proof (cases es)
  case Nil
  then show ?thesis by simp
next
  case (Cons e es')
  note es = this
  with assms obtain i s where e: "e = Singular i s" by (cases e) simp_all
  show ?thesis
  proof (cases es')
    case Nil
    with es e show ?thesis by simp
  next
    case (Cons e' es'')
    with es assms obtain j t where e': "e' = Singular j t" by (cases e') simp_all
    from es Cons assms have "list_all is_singular es''" by simp
    from foldl_Append_Multi [OF this, of "[e, e']"] es Cons e e' show ?thesis by simp
  qed
qed

text \<open>
  C4. Accumulation flattens exactly: for every sequence \<open>es\<close> of present errors that are
  not composites, folding \<open>err = Append(err, e)\<close> over it from left to right, starting
  from nil, gives a value whose \<open>All\<close> sequence is exactly \<open>es\<close>; and when that value
  is a composite, none of its elements is a composite. (It holds for the empty
  sequence as well, so the claim's \<open>n \<ge> 1\<close> is not needed.)
\<close>

theorem accumulate_flattens:
  assumes "list_all is_singular es"
  shows "All_errs (foldl Append ErrNil es) = es \<and>
         (\<forall>m. foldl Append ErrNil es = Multi m \<longrightarrow> list_all (\<lambda>x. \<not> is_multi x) m)"
proof -
  have nm: "list_all (\<lambda>x. \<not> is_multi x) es"
    using assms by (induction es) (auto elim: is_singular.elims)
  have single: "\<And>e. es = [e] \<Longrightarrow> \<exists>i s. e = Singular i s"
    using assms by (auto elim: is_singular.elims)
  show ?thesis
  proof (cases es)
    case Nil
    then show ?thesis by (simp add: All_errs_ErrNil)
  next
    case (Cons e es')
    show ?thesis
    proof (cases es')
      case Nil
      with Cons single obtain i s where "e = Singular i s" by blast
      with Cons Nil show ?thesis by (simp add: All_errs_Singular)
    next
      case (Cons e' es'')
      with \<open>es = e # es'\<close> foldl_Append_ErrNil [OF assms]
      have "foldl Append ErrNil es = Multi es" by simp
      with nm show ?thesis by (simp add: All_errs_Multi)
    qed
  qed
qed

theorem accumulate_flattens_witness:
  "list_all is_singular [Singular 1 ''oops'', Singular 2 ''whoops'', Singular 3 ''whoopsie''] \<and>
   All_errs (foldl Append ErrNil [Singular 1 ''oops'', Singular 2 ''whoops'', Singular 3 ''whoopsie''])
     = [Singular 1 ''oops'', Singular 2 ''whoops'', Singular 3 ''whoopsie''] \<and>
   foldl Append ErrNil [Singular 1 ''oops'', Singular 2 ''whoops'', Singular 3 ''whoopsie'']
     = Multi [Singular 1 ''oops'', Singular 2 ''whoops'', Singular 3 ''whoopsie''] \<and>
   list_all (\<lambda>x. \<not> is_multi x) [Singular 1 ''oops'', Singular 2 ''whoops'', Singular 3 ''whoopsie'']"
proof -
  have h: "list_all is_singular [Singular 1 ''oops'', Singular 2 ''whoops'', Singular 3 ''whoopsie'']"
    by simp
  show ?thesis
    using h accumulate_flattens [OF h] by simp
qed

section \<open>ForEach, Len and All\<close>

lemma range_loop_logged:
  "range_loop (logged f) m (log, s) = (log @ m, range_loop f m s)"
  by (induction m arbitrary: log s) (simp_all add: logged_def)

lemma ForEach_logged:
  "ForEach err (logged f) ([], s) = (All_errs err, ForEach err f s)"
  by (cases err) (simp_all add: All_errs_def range_loop_logged range_loop_snoc logged_def)

lemma Len_All_errs: "Len err = length (All_errs err)"
  by (cases err) (simp_all add: All_errs_ErrNil All_errs_Multi All_errs_Singular)

text \<open>
  C5. \<open>Len\<close>, \<open>All\<close> and \<open>ForEach\<close> agree: for every error value, \<open>Len\<close> is the length
  of \<open>All\<close>; \<open>ForEach\<close> with any callback \<open>f\<close> calls it on exactly the elements of
  \<open>All\<close>, in that order, so the number of calls is \<open>Len\<close>; \<open>Len\<close> of nil is 0,
  \<open>Len\<close> of a composite is the number of its elements, and \<open>Len\<close> of any other
  present error is 1.
\<close>

theorem Len_All_ForEach:
  "Len err = length (All_errs err) \<and>
   ForEach err (logged f) ([], s) = (All_errs err, ForEach err f s) \<and>
   length (fst (ForEach err (logged f) ([], s))) = Len err \<and>
   Len ErrNil = 0 \<and>
   Len (Multi m) = length m \<and>
   (err \<noteq> ErrNil \<and> \<not> is_multi err \<longrightarrow> Len err = 1)"
proof (intro conjI impI)
  show "Len err = length (All_errs err)" by (rule Len_All_errs)
  show "ForEach err (logged f) ([], s) = (All_errs err, ForEach err f s)" by (rule ForEach_logged)
  show "length (fst (ForEach err (logged f) ([], s))) = Len err"
    by (simp add: ForEach_logged Len_All_errs)
  show "Len ErrNil = 0" by simp
  show "Len (Multi m) = length m" by simp
next
  assume "err \<noteq> ErrNil \<and> \<not> is_multi err"
  then show "Len err = 1" by (cases err) simp_all
qed

theorem Len_All_ForEach_witness:
  "Len (Singular 1 ''oops'') = length (All_errs (Singular 1 ''oops'')) \<and>
   ForEach (Singular 1 ''oops'') (logged (\<lambda>e n. Suc n)) ([], 0) = ([Singular 1 ''oops''], 1) \<and>
   Len (Singular 1 ''oops'') = 1"
  using Len_All_ForEach [where err = "Singular 1 ''oops''" and f = "\<lambda>e n. Suc n" and s = 0]
  by (simp add: All_errs_Singular)

text \<open>
  C6. The contract of \<open>ForEach\<close>: on nil it calls \<open>f\<close> no times and leaves the state
  as it was, and \<open>All\<close> of nil is empty; on a composite it calls \<open>f\<close> once per element
  in insertion order, and the state it returns is the one after all these calls; on
  any other present error it calls \<open>f\<close> exactly once, on that error itself.
\<close>

theorem ForEach_contract:
  "ForEach ErrNil (logged f) ([], s) = ([], s) \<and>
   All_errs ErrNil = [] \<and>
   ForEach (Multi m) (logged f) ([], s) = (m, fold f m s) \<and>
   (err \<noteq> ErrNil \<and> \<not> is_multi err \<longrightarrow> ForEach err (logged f) ([], s) = ([err], f err s))"
proof (intro conjI impI)
  show "ForEach ErrNil (logged f) ([], s) = ([], s)" by simp
  show "All_errs ErrNil = []" by (rule All_errs_ErrNil)
  show "ForEach (Multi m) (logged f) ([], s) = (m, fold f m s)"
  proof -
    have "ForEach (Multi m) (logged f) ([], s) = (m, range_loop f m s)"
      by (simp add: range_loop_logged)
    then show ?thesis by (simp add: range_loop_fold)
  qed
next
  assume "err \<noteq> ErrNil \<and> \<not> is_multi err"
  then show "ForEach err (logged f) ([], s) = ([err], f err s)"
    by (cases err) (simp_all add: logged_def)
qed

theorem ForEach_contract_witness:
  "ForEach (Singular 1 ''oops'') (logged (\<lambda>e msgs. message e # msgs)) ([], [])
     = ([Singular 1 ''oops''], [''oops''])"
  using ForEach_contract [where err = "Singular 1 ''oops''" and f = "\<lambda>e msgs. message e # msgs" and s = "[]"]
  by simp

section \<open>Matching\<close>







section \<open>Rendering\<close>

lemma join_lines_Cons: "join_lines (l # ls) = l @ concat (map (\<lambda>x. newline # x) ls)"
  by (induction ls arbitrary: l) simp_all

lemma format_loop_pos:
  "0 < i \<Longrightarrow> map (Error hook) errs = map Inr msgs \<Longrightarrow>
   format_loop hook i errs buf =
     Inr (buf @ concat (map (\<lambda>(j, msg). newline # element_line (Suc j) msg) (enumerate i msgs)))"
proof (induction errs arbitrary: i buf msgs)
  case Nil
  then show ?case by simp
next
  case (Cons err errs)
  from Cons.prems(2) obtain msg msgs' where msgs: "msgs = msg # msgs'"
    and e: "Error hook err = Inr msg" and rest: "map (Error hook) errs = map Inr msgs'"
    by (cases msgs) auto
  have "0 < Suc i" by simp
  from Cons.IH [OF this rest] Cons.prems(1) msgs e show ?case
    by (simp add: element_line_def)
qed

lemma DefaultFormatMessage_spec:
  assumes "errs \<noteq> []" and "map (Error hook) errs = map Inr msgs"
  shows "DefaultFormatMessage hook errs = Inr (spec_message msgs)"
proof -
  from assms obtain err errs' where errs: "errs = err # errs'" by (cases errs) auto
  with assms(2) obtain msg msgs' where msgs: "msgs = msg # msgs'"
    and e: "Error hook err = Inr msg" and rest: "map (Error hook) errs' = map Inr msgs'"
    by (cases msgs) auto
  have len: "length errs = length msgs"
    using assms(2) by (metis length_map)
  have one: "(0::nat) < Suc 0" by simp
  show ?thesis
    using format_loop_pos [OF one rest] errs msgs e len
    by (simp add: spec_message_def join_lines_Cons element_line_def comp_def case_prod_unfold
        del: join_lines.simps)
qed

lemma last_ReplaceAll:
  "ReplaceAll s newline [newline, tab] \<noteq> [] \<Longrightarrow> last (ReplaceAll s newline [newline, tab]) \<noteq> newline"
  by (induction s) (auto simp: last_append)

lemma last_element_line: "last (element_line i msg) \<noteq> newline"
  using last_ReplaceAll [of msg]
  by (cases "ReplaceAll msg newline [newline, tab] = []")
     (simp_all add: element_line_def last_append)

lemma element_line_nonempty: "element_line i msg \<noteq> []"
  by (simp add: element_line_def)

lemma last_spec_message:
  assumes "msgs \<noteq> []"
  shows "last (spec_message msgs) \<noteq> newline"
proof -
  from assms obtain ms x where msgs: "msgs = ms @ [x]"
    by (metis append_butlast_last_id)
  have "spec_message msgs =
      (itoa (length msgs) @ '' errors occurred:'' @
        concat (map (\<lambda>(j, msg). newline # element_line (Suc j) msg) (enumerate 0 ms)) @ [newline])
      @ element_line (Suc (length ms)) x"
    by (simp add: spec_message_def join_lines_Cons msgs enumerate_append_eq case_prod_unfold comp_def
        del: join_lines.simps)
  then show ?thesis
    by (simp add: last_append element_line_nonempty last_element_line del: append_assoc)
qed

text \<open>
  C8. The default message of a composite of \<open>N \<ge> 2\<close> elements, each of which has a
  message: the header line \<^verbatim>\<open><N> errors occurred:\<close>, then one line
  \<^verbatim>\<open>(<i>) <message>\<close> per element, numbered from 1 in insertion order, with every
  newline inside an element's message replaced by newline and tab; the lines are
  joined by single newlines and the message does not end in a newline. Combining
  errors with the messages oops, whoops and whoopsie, in this order, renders as the
  four lines \<^verbatim>\<open>3 errors occurred:\<close>, \<^verbatim>\<open>(1) oops\<close>, \<^verbatim>\<open>(2) whoops\<close>, \<^verbatim>\<open>(3) whoopsie\<close>.
\<close>

theorem default_message_format:
  assumes "2 \<le> length m" and "map (Error None) m = map Inr msgs"
  shows "Error None (Multi m) = Inr (spec_message msgs) \<and>
         last (spec_message msgs) \<noteq> newline \<and>
         Error None (foldl Append ErrNil
             [Singular 1 ''oops'', Singular 2 ''whoops'', Singular 3 ''whoopsie'']) =
           Inr (''3 errors occurred:'' @ [newline] @ ''(1) oops'' @ [newline] @
                ''(2) whoops'' @ [newline] @ ''(3) whoopsie'')"
proof (intro conjI)
  from assms(1) obtain e e' m' where m: "m = e # e' # m'"
    by (cases m; cases "tl m") auto
  then have "m \<noteq> []" by simp
  from DefaultFormatMessage_spec [OF this assms(2)] m
  show "Error None (Multi m) = Inr (spec_message msgs)" by simp
  from assms have "msgs \<noteq> []" by (cases msgs) auto
  then show "last (spec_message msgs) \<noteq> newline" by (rule last_spec_message)
  show "Error None (foldl Append ErrNil
             [Singular 1 ''oops'', Singular 2 ''whoops'', Singular 3 ''whoopsie'']) =
           Inr (''3 errors occurred:'' @ [newline] @ ''(1) oops'' @ [newline] @
                ''(2) whoops'' @ [newline] @ ''(3) whoopsie'')"
    by (simp add: itoa.simps digit_def)
qed

theorem default_message_format_witness:
  "Error None (Multi [Singular 1 (''a'' @ [newline] @ ''b''), Singular 2 ''c'']) =
     Inr (''2 errors occurred:'' @ [newline] @ ''(1) a'' @ [newline, tab] @ ''b'' @ [newline] @ ''(2) c'')"
proof -
  have len: "2 \<le> length [Singular 1 (''a'' @ [newline] @ ''b''), Singular 2 ''c'']"
    by simp
  have msgs: "map (Error None) [Singular 1 (''a'' @ [newline] @ ''b''), Singular 2 ''c'']
      = map Inr [''a'' @ [newline] @ ''b'', ''c'']"
    by simp
  have "spec_message [''a'' @ [newline] @ ''b'', ''c''] =
      ''2 errors occurred:'' @ [newline] @ ''(1) a'' @ [newline, tab] @ ''b'' @ [newline] @ ''(2) c''"
    by (simp add: spec_message_def element_line_def enumerate_eq_zip upt_rec itoa.simps digit_def)
  with default_message_format [OF len msgs] show ?thesis by simp
qed

text \<open>
  C9. Rendering a composite that breaks the invariant: with exactly one element the
  message is just that element's message, with no header and no index; with no element
  the call panics and returns no message.
\<close>

theorem Error_defences:
  "Error hook (Multi [e]) = Error hook e \<and>
   Error hook (Multi [Singular i s]) = Inr s \<and>
   multi_Error hook [] = Inl ZeroErrors \<and>
   Error hook (Multi []) = Inl ZeroErrors"
  by simp

lemma length_ReplaceAll: "length s \<le> length (ReplaceAll s newline [newline, tab])"
  by (induction s) simp_all

text \<open>
  C10. The two defences are in the composite's \<open>Error\<close> method only. Called directly,
  \<open>DefaultFormatMessage\<close> on the empty list does not panic and returns exactly
  \<^verbatim>\<open>0 errors occurred:\<close> followed by a newline, and on a list of one element it returns
  the header \<^verbatim>\<open>1 errors occurred:\<close> and the indexed line, which differs from the bare
  message that \<open>Error\<close> returns for the composite of that one element.
\<close>

theorem DefaultFormatMessage_undefended:
  "DefaultFormatMessage hook [] = Inr (''0 errors occurred:'' @ [newline]) \<and>
   DefaultFormatMessage hook [Singular i s] =
     Inr (''1 errors occurred:'' @ [newline] @ ''(1) '' @ ReplaceAll s newline [newline, tab]) \<and>
   DefaultFormatMessage hook [Singular i s] \<noteq> Error hook (Multi [Singular i s]) \<and>
   DefaultFormatMessage hook [] \<noteq> Error hook (Multi [])"
proof (intro conjI)
  show "DefaultFormatMessage hook [] = Inr (''0 errors occurred:'' @ [newline])"
    by (simp add: itoa.simps digit_def)
  show full: "DefaultFormatMessage hook [Singular i s] =
     Inr (''1 errors occurred:'' @ [newline] @ ''(1) '' @ ReplaceAll s newline [newline, tab])"
    by (simp add: itoa.simps digit_def)
  have "length s <
      length (''1 errors occurred:'' @ [newline] @ ''(1) '' @ ReplaceAll s newline [newline, tab])"
    using length_ReplaceAll [of s] by simp
  then have neq: "''1 errors occurred:'' @ [newline] @ ''(1) '' @ ReplaceAll s newline [newline, tab] \<noteq> s"
    by (metis less_irrefl)
  have bare: "Error hook (Multi [Singular i s]) = Inr s"
    by simp
  show "DefaultFormatMessage hook [Singular i s] \<noteq> Error hook (Multi [Singular i s])"
    unfolding full bare using neq by simp
  show "DefaultFormatMessage hook [] \<noteq> Error hook (Multi [])"
    by simp
qed

end
